theory Spec2Isabelle
  imports Complex_Main "HOL-Library.Word"
begin

section \<open>The converter page: data model\<close>

text \<open>
  The page component of \<^verbatim>\<open>src/app/(public)/png-to-jpg/page.tsx\<close> is embedded as
  state-passing functions on a record of its React state. What the browser does
  (reading and decoding the file, acquiring the drawing context, compositing, encoding,
  timers) is not code of the page: decoding and context acquisition enter as inputs,
  drawing and encoding as a small bitmap model.
\<close>

record ConverterConfig =
  label :: string
  inputMime :: string
  outputMime :: string
  downloadExt :: string

text \<open>Of a \<^verbatim>\<open>File\<close> the page reads the declared MIME type only.\<close>

record File =
  type :: string

subsection \<open>Bitmaps, canvas drawing and encoding (the browser's side)\<close>

datatype rgba = RGBA (red: "8 word") (green: "8 word") (blue: "8 word") (alpha: "8 word")

definition white :: rgba where
  "white = RGBA 255 255 255 255"

definition black :: rgba where
  "black = RGBA 0 0 0 255"

definition transparent :: rgba where
  "transparent = RGBA 0 0 0 0"

text \<open>
  A decoded image and a canvas are both a width, a height and a pixel at each
  coordinate.
\<close>

record bitmap =
  width :: nat
  height :: nat
  pixel :: "nat \<Rightarrow> nat \<Rightarrow> rgba"

text \<open>
  The canvas default compositing, source-over, on 8-bit channels with straight alpha:
  a fully transparent source leaves the destination, an opaque source replaces it.
\<close>

definition blend :: "nat \<Rightarrow> nat \<Rightarrow> nat \<Rightarrow> nat \<Rightarrow> nat \<Rightarrow> 8 word" where
  "blend cs as cd ad ao = of_nat ((cs * as * 255 + cd * ad * (255 - as)) div ao)"

definition source_over :: "rgba \<Rightarrow> rgba \<Rightarrow> rgba" where
  "source_over src dst =
     (let as = unat (alpha src); ad = unat (alpha dst);
          ao = as * 255 + ad * (255 - as)
      in if ao = 0 then transparent
         else RGBA (blend (unat (red src)) as (unat (red dst)) ad ao)
                   (blend (unat (green src)) as (unat (green dst)) ad ao)
                   (blend (unat (blue src)) as (unat (blue dst)) ad ao)
                   (of_nat (ao div 255)))"

text \<open>
  \<^verbatim>\<open>document.createElement("canvas")\<close> followed by the assignments of
  \<^verbatim>\<open>canvas.width\<close> and \<^verbatim>\<open>canvas.height\<close>: a transparent bitmap of that size.
\<close>

definition createCanvas :: "nat \<Rightarrow> nat \<Rightarrow> bitmap" where
  "createCanvas w h = \<lparr>width = w, height = h, pixel = (\<lambda>x y. transparent)\<rparr>"

definition fillRect :: "rgba \<Rightarrow> nat \<Rightarrow> nat \<Rightarrow> nat \<Rightarrow> nat \<Rightarrow> bitmap \<Rightarrow> bitmap" where
  "fillRect fillStyle x0 y0 w h canvas =
     canvas\<lparr>pixel := (\<lambda>x y.
       if x0 \<le> x \<and> x < x0 + w \<and> y0 \<le> y \<and> y < y0 + h \<and> x < width canvas \<and> y < height canvas
       then source_over fillStyle (pixel canvas x y)
       else pixel canvas x y)\<rparr>"

definition drawImage :: "bitmap \<Rightarrow> nat \<Rightarrow> nat \<Rightarrow> bitmap \<Rightarrow> bitmap" where
  "drawImage img dx dy canvas =
     canvas\<lparr>pixel := (\<lambda>x y.
       if dx \<le> x \<and> x < dx + width img \<and> dy \<le> y \<and> y < dy + height img
          \<and> x < width canvas \<and> y < height canvas
       then source_over (pixel img (x - dx) (y - dy)) (pixel canvas x y)
       else pixel canvas x y)\<rparr>"

text \<open>
  The encoded output is kept symbolically: the type it is encoded to, the quality passed
  and the bitmap handed to the encoder. JPEG has no alpha channel, so the encoder
  composites the canvas onto opaque black first; a type the encoder does not know falls
  back to PNG.
\<close>

record dataUrl =
  mimeType :: string
  quality :: rat
  encoded :: bitmap

definition flatten :: "bitmap \<Rightarrow> bitmap" where
  "flatten canvas = canvas\<lparr>pixel := (\<lambda>x y. source_over (pixel canvas x y) black)\<rparr>"

definition toDataURL :: "string \<Rightarrow> rat \<Rightarrow> bitmap \<Rightarrow> dataUrl" where
  "toDataURL t q canvas =
     (if t = ''image/jpeg''
      then \<lparr>mimeType = ''image/jpeg'', quality = q, encoded = flatten canvas\<rparr>
      else \<lparr>mimeType = ''image/png'', quality = q, encoded = canvas\<rparr>)"

subsection \<open>The page state\<close>

text \<open>
  A conversion that passed validation waits for the file to be read and decoded; the
  callbacks keep the preset that was active when the file was handed in.
\<close>

record job =
  jobConverter :: ConverterConfig
  jobFile :: File

text \<open>
  The five \<^verbatim>\<open>useState\<close> cells, the pending timeout of the snackbar effect
  (milliseconds left) and the conversions in flight.
\<close>

record state =
  outputUrl :: "dataUrl option"
  error :: "string option"
  isDragging :: bool
  snackbar :: "string option"
  activeIndex :: nat
  timer :: "nat option"
  pending :: "job list"

definition initial :: state where
  "initial = \<lparr>outputUrl = None, error = None, isDragging = False, snackbar = None,
     activeIndex = 1, timer = None, pending = []\<rparr>"

definition docx :: string where
  "docx = ''application/vnd.openxmlformats-officedocument.wordprocessingml.document''"

definition converters :: "ConverterConfig list" where
  "converters =
    [\<lparr>label = ''JPG to PNG'', inputMime = ''image/jpeg'', outputMime = ''image/png'', downloadExt = ''png''\<rparr>,
     \<lparr>label = ''PNG to JPG'', inputMime = ''image/png'', outputMime = ''image/jpeg'', downloadExt = ''jpg''\<rparr>,
     \<lparr>label = ''HEIC to JPG'', inputMime = ''image/heic'', outputMime = ''image/jpeg'', downloadExt = ''jpg''\<rparr>,
     \<lparr>label = ''WebP to JPEG'', inputMime = ''image/webp'', outputMime = ''image/jpeg'', downloadExt = ''jpg''\<rparr>,
     \<lparr>label = ''Word to JPEG'', inputMime = docx, outputMime = ''image/jpeg'', downloadExt = ''jpg''\<rparr>,
     \<lparr>label = ''JPEG to Word'', inputMime = ''image/jpeg'', outputMime = docx, downloadExt = ''docx''\<rparr>]"

text \<open>
  \<^verbatim>\<open>converters[activeIndex]\<close>: outside the array JavaScript gives
  \<^verbatim>\<open>undefined\<close>, here \<open>None\<close>.
\<close>

definition activeConverter :: "state \<Rightarrow> ConverterConfig option" where
  "activeConverter s =
     (if activeIndex s < length converters then Some (converters ! activeIndex s) else None)"

text \<open>Reading a property of \<^verbatim>\<open>undefined\<close> throws.\<close>

datatype exn = TypeError

section \<open>Operations\<close>

subsection \<open>State setters and the snackbar effect\<close>

definition setOutputUrl :: "dataUrl option \<Rightarrow> state \<Rightarrow> state" where
  "setOutputUrl v s = s\<lparr>outputUrl := v\<rparr>"

definition setError :: "string option \<Rightarrow> state \<Rightarrow> state" where
  "setError v s = s\<lparr>error := v\<rparr>"

definition setIsDragging :: "bool \<Rightarrow> state \<Rightarrow> state" where
  "setIsDragging v s = s\<lparr>isDragging := v\<rparr>"

definition setActiveIndex :: "nat \<Rightarrow> state \<Rightarrow> state" where
  "setActiveIndex v s = s\<lparr>activeIndex := v\<rparr>"

text \<open>
  The effect on \<^verbatim>\<open>[snackbar]\<close>: a truthy snackbar (neither \<^verbatim>\<open>null\<close> nor
  the empty string) starts a timeout of 3000 ms; the cleanup cancels the one before.
\<close>

definition useEffect_snackbar :: "string option \<Rightarrow> nat option" where
  "useEffect_snackbar sb =
     (case sb of None \<Rightarrow> None | Some m \<Rightarrow> if m = [] then None else Some 3000)"

text \<open>
  Setting the snackbar to the value it has changes nothing and does not run the effect;
  a new value runs the cleanup and the effect.
\<close>

definition setSnackbar :: "string option \<Rightarrow> state \<Rightarrow> state" where
  "setSnackbar v s =
     (if snackbar s = v then s else s\<lparr>snackbar := v, timer := useEffect_snackbar v\<rparr>)"

text \<open>
  \<open>d\<close> milliseconds pass with no other event: a timeout that is due runs its callback
  \<^verbatim>\<open>setSnackbar(null)\<close>.
\<close>

definition elapse :: "nat \<Rightarrow> state \<Rightarrow> state" where
  "elapse d s =
     (case timer s of
        None \<Rightarrow> s
      | Some r \<Rightarrow> if r \<le> d then setSnackbar None (s\<lparr>timer := None\<rparr>)
                  else s\<lparr>timer := Some (r - d)\<rparr>)"

subsection \<open>convertFile\<close>

text \<open>The two notices. The leading signs are U+274C and U+26A0, here in UTF-8.\<close>

definition typeMismatchNotice :: "ConverterConfig \<Rightarrow> string" where
  "typeMismatchNotice c =
     [CHR 0xE2, CHR 0x9D, CHR 0x8C] @ '' Please upload a valid '' @ inputMime c
       @ '' file for '' @ label c"

definition unsupportedNotice :: string where
  "unsupportedNotice =
     [CHR 0xE2, CHR 0x9A, CHR 0xA0]
       @ '' This conversion requires backend support. Not supported in browser.''"

text \<open>
  The synchronous part of \<^verbatim>\<open>convertFile\<close>: the two rejections, or the start of the
  read (\<^verbatim>\<open>reader.readAsDataURL(file)\<close>), which changes no state cell.
\<close>

definition convertFile :: "File \<Rightarrow> state \<Rightarrow> exn + state" where
  "convertFile file s =
     (case activeConverter s of
        None \<Rightarrow> Inl TypeError
      | Some c \<Rightarrow>
          if type file \<noteq> inputMime c
          then Inr (setSnackbar (Some (typeMismatchNotice c)) (setOutputUrl None s))
          else if label c = ''Word to JPEG'' \<or> label c = ''JPEG to Word''
          then Inr (setSnackbar (Some unsupportedNotice) (setOutputUrl None s))
          else Inr (s\<lparr>pending := pending s @ [\<lparr>jobConverter = c, jobFile = file\<rparr>]\<rparr>))"

text \<open>
  \<^verbatim>\<open>img.onload\<close>, with the decoded image and whether
  \<^verbatim>\<open>canvas.getContext("2d")\<close> gave a context.
\<close>

definition img_onload :: "ConverterConfig \<Rightarrow> bitmap \<Rightarrow> bool \<Rightarrow> state \<Rightarrow> state" where
  "img_onload c img ctx s =
     (let canvas = createCanvas (width img) (height img)
      in if ctx
         then let canvas1 = (if outputMime c = ''image/jpeg''
                             then fillRect white 0 0 (width canvas) (height canvas) canvas
                             else canvas);
                  canvas2 = drawImage img 0 0 canvas1;
                  url = toDataURL (outputMime c) (9 / 10) canvas2
              in setOutputUrl (Some url) s
         else s)"

text \<open>
  How a read in flight ends. The page registers no \<^verbatim>\<open>onerror\<close> handler, so a
  failed read or decode runs no code of the page.
\<close>

datatype outcome = ReadFailed | DecodeFailed | Loaded bitmap bool

definition finish :: "nat \<Rightarrow> outcome \<Rightarrow> state \<Rightarrow> state" where
  "finish k out s =
     (if k < length (pending s)
      then let j = pending s ! k;
               s' = s\<lparr>pending := take k (pending s) @ drop (Suc k) (pending s)\<rparr>
           in (case out of
                 Loaded img ctx \<Rightarrow> img_onload (jobConverter j) img ctx s'
               | _ \<Rightarrow> s')
      else s)"

subsection \<open>Event handlers\<close>

definition handleFileChange :: "File list \<Rightarrow> state \<Rightarrow> exn + state" where
  "handleFileChange files s = (case files of [] \<Rightarrow> Inr s | file # _ \<Rightarrow> convertFile file s)"

definition handleDragOver :: "state \<Rightarrow> state" where
  "handleDragOver s = setIsDragging True s"

definition handleDragEnter :: "state \<Rightarrow> state" where
  "handleDragEnter s = setIsDragging True s"

definition handleDragLeave :: "state \<Rightarrow> state" where
  "handleDragLeave s = setIsDragging False s"

definition handleDrop :: "File list \<Rightarrow> state \<Rightarrow> exn + state" where
  "handleDrop files s =
     (let s' = setIsDragging False s
      in case files of [] \<Rightarrow> Inr s' | file # _ \<Rightarrow> convertFile file s')"

definition handleClear :: "state \<Rightarrow> state" where
  "handleClear s = setError None (setOutputUrl None s)"

text \<open>The \<^verbatim>\<open>onClick\<close> of the tab button rendered for \<open>index\<close>.\<close>

definition tabClick :: "nat \<Rightarrow> state \<Rightarrow> state" where
  "tabClick index s = setError None (setOutputUrl None (setActiveIndex index s))"

text \<open>
  The buttons of the tab bar in rendering order: one per preset, made by
  \<^verbatim>\<open>converters.map\<close>, then \<^verbatim>\<open>More...\<close>, which has no handler.
\<close>

definition converterTabs :: "(state \<Rightarrow> state) list" where
  "converterTabs = map tabClick [0..<length converters] @ [\<lambda>s. s]"

subsection \<open>The page as a transition system\<close>

datatype event =
    FileChange "File list"
  | DragOver
  | DragEnter
  | DragLeave
  | Drop "File list"
  | Clear
  | ClickTab nat
  | Finish nat outcome
  | Elapse nat

text \<open>
  What can happen to the page: the user's actions, the end of a read in flight, and time
  passing. \<open>ClickTab k\<close> is a click on button \<open>k\<close> of the tab bar; where the bar
  has no such button there is nothing to click. An exception ends the run.
\<close>

fun step :: "event \<Rightarrow> state \<Rightarrow> exn + state" where
  "step (FileChange files) s = handleFileChange files s"
| "step DragOver s = Inr (handleDragOver s)"
| "step DragEnter s = Inr (handleDragEnter s)"
| "step DragLeave s = Inr (handleDragLeave s)"
| "step (Drop files) s = handleDrop files s"
| "step Clear s = Inr (handleClear s)"
| "step (ClickTab k) s = Inr (if k < length converterTabs then (converterTabs ! k) s else s)"
| "step (Finish k out) s = Inr (finish k out s)"
| "step (Elapse d) s = Inr (elapse d s)"

fun run :: "event list \<Rightarrow> state \<Rightarrow> exn + state" where
  "run [] s = Inr s"
| "run (e # es) s = (case step e s of Inl x \<Rightarrow> Inl x | Inr s' \<Rightarrow> run es s')"

section \<open>Properties\<close>

subsection \<open>Auxiliary facts\<close>

lemma length_converters: "length converters = 6"
  by (simp add: converters_def)

lemma supported_outputMime:
  assumes "activeConverter s = Some c"
    and "label c \<noteq> ''Word to JPEG''" and "label c \<noteq> ''JPEG to Word''"
  shows "outputMime c = ''image/jpeg'' \<or> outputMime c = ''image/png''"
proof -
  from assms(1) have lt: "activeIndex s < 6" and c: "c = converters ! activeIndex s"
    by (auto simp: activeConverter_def converters_def split: if_splits)
  from lt consider "activeIndex s = 0" | "activeIndex s = 1" | "activeIndex s = 2"
    | "activeIndex s = 3" | "activeIndex s = 4" | "activeIndex s = 5"
    by linarith
  then show ?thesis
    using assms(2,3) by cases (simp_all add: c converters_def)
qed

lemma png_to_jpg_outputMime:
  assumes "activeConverter s = Some c" and "label c = ''PNG to JPG''"
  shows "outputMime c = ''image/jpeg''"
proof -
  from assms(1) have lt: "activeIndex s < 6" and c: "c = converters ! activeIndex s"
    by (auto simp: activeConverter_def converters_def split: if_splits)
  from lt consider "activeIndex s = 0" | "activeIndex s = 1" | "activeIndex s = 2"
    | "activeIndex s = 3" | "activeIndex s = 4" | "activeIndex s = 5"
    by linarith
  then show ?thesis
    using assms(2) by cases (simp_all add: c converters_def)
qed

text \<open>A file of the expected type under a preset other than the two document ones
  passes both guards; the only change is the read now in flight.\<close>

lemma convertFile_accepts:
  assumes "activeConverter s = Some c" and "type file = inputMime c"
    and "label c \<noteq> ''Word to JPEG''" and "label c \<noteq> ''JPEG to Word''"
  shows "convertFile file s = Inr (s\<lparr>pending := pending s @ [\<lparr>jobConverter = c, jobFile = file\<rparr>]\<rparr>)"
  using assms by (simp add: convertFile_def)

lemma finish_last:
  "finish (length (pending s)) (Loaded img ctx) (s\<lparr>pending := pending s @ [j]\<rparr>)
     = img_onload (jobConverter j) img ctx s"
  by (simp add: finish_def)

lemma img_onload_no_ctx: "img_onload c img False t = t"
  by (simp add: img_onload_def)

lemma img_onload_ctx:
  "img_onload c img True t =
     t\<lparr>outputUrl := Some (toDataURL (outputMime c) (9 / 10)
         (drawImage img 0 0
            (if outputMime c = ''image/jpeg''
             then fillRect white 0 0 (width img) (height img) (createCanvas (width img) (height img))
             else createCanvas (width img) (height img))))\<rparr>"
  by (simp add: img_onload_def setOutputUrl_def createCanvas_def)

lemma source_over_white: "source_over white dst = white"
  by (simp add: source_over_def blend_def white_def)

lemma source_over_transparent: "alpha src = 0 \<Longrightarrow> source_over src white = white"
  by (simp add: source_over_def blend_def white_def)

text \<open>The running example: a PNG file handed to the page as it starts.\<close>

lemma validPng:
  "activeConverter initial = Some (converters ! 1)
   \<and> type \<lparr>type = ''image/png''\<rparr> = inputMime (converters ! 1)
   \<and> label (converters ! 1) \<noteq> ''Word to JPEG''
   \<and> label (converters ! 1) \<noteq> ''JPEG to Word''
   \<and> label (converters ! 1) = ''PNG to JPG''
   \<and> outputMime (converters ! 1) = ''image/jpeg''"
  by (simp add: activeConverter_def initial_def converters_def)

lemma tabClick_cells:
  "activeIndex (tabClick i s) = i \<and> outputUrl (tabClick i s) = None
   \<and> error (tabClick i s) = None \<and> snackbar (tabClick i s) = snackbar s
   \<and> timer (tabClick i s) = timer s \<and> pending (tabClick i s) = pending s"
  by (simp add: tabClick_def setError_def setOutputUrl_def setActiveIndex_def)

lemma handleClear_cells:
  "activeIndex (handleClear s) = activeIndex s \<and> outputUrl (handleClear s) = None
   \<and> error (handleClear s) = None \<and> snackbar (handleClear s) = snackbar s
   \<and> timer (handleClear s) = timer s \<and> pending (handleClear s) = pending s"
  by (simp add: handleClear_def setError_def setOutputUrl_def)

lemma notices_nonempty: "typeMismatchNotice c \<noteq> [] \<and> unsupportedNotice \<noteq> []"
  by (simp add: typeMismatchNotice_def unsupportedNotice_def)

lemma convertFile_cases:
  assumes "convertFile file s = Inr s'"
  shows "snackbar s' = snackbar s
         \<or> (\<exists>m. m \<noteq> [] \<and> s' = setSnackbar (Some m) (setOutputUrl None s))"
  using assms notices_nonempty
  by (auto simp: convertFile_def split: option.splits if_splits)

subsection \<open>The snackbar timeout\<close>

lemma setSnackbar_timer:
  assumes "m \<noteq> []" and "snackbar s \<noteq> Some m"
  shows "snackbar (setSnackbar (Some m) s) = Some m
         \<and> timer (setSnackbar (Some m) s) = Some 3000"
  using assms by (simp add: setSnackbar_def useEffect_snackbar_def)

lemma elapse_running:
  assumes "timer s = Some r" and "d < r"
  shows "snackbar (elapse d s) = snackbar s \<and> timer (elapse d s) = Some (r - d)"
  using assms by (simp add: elapse_def)

lemma elapse_due:
  assumes "timer s = Some r" and "r \<le> d"
  shows "snackbar (elapse d s) = None \<and> timer (elapse d s) = None"
  using assms by (simp add: elapse_def setSnackbar_def useEffect_snackbar_def)

text \<open>Time passing in two pieces is time passing in one.\<close>

lemma elapse_add: "elapse d2 (elapse d1 s) = elapse (d1 + d2) s"
  by (cases "timer s") (auto simp: elapse_def setSnackbar_def useEffect_snackbar_def)

text \<open>Time passing in several steps, as a run of the page.\<close>

lemma run_Elapse: "run (map Elapse ds) s = Inr (fold elapse ds s)"
  by (induction ds arbitrary: s) simp_all

lemma fold_elapse_idle: "timer s = None \<Longrightarrow> fold elapse ds s = s"
  by (induction ds) (simp_all add: elapse_def)

lemma fold_elapse_running:
  "timer s = Some r \<Longrightarrow> sum_list ds < r \<Longrightarrow>
     snackbar (fold elapse ds s) = snackbar s \<and> timer (fold elapse ds s) = Some (r - sum_list ds)"
proof (induction ds arbitrary: s r)
  case Nil
  then show ?case by simp
next
  case (Cons d ds)
  from Cons.prems have d: "d < r" and rest: "sum_list ds < r - d" by simp_all
  from elapse_running [OF Cons.prems(1) d]
  have e: "snackbar (elapse d s) = snackbar s" "timer (elapse d s) = Some (r - d)"
    by simp_all
  from Cons.IH [OF e(2) rest] e(1) show ?case by simp
qed

lemma fold_elapse_due:
  "timer s = Some r \<Longrightarrow> 0 < r \<Longrightarrow> r \<le> sum_list ds \<Longrightarrow>
     snackbar (fold elapse ds s) = None"
proof (induction ds arbitrary: s r)
  case Nil
  then show ?case by simp
next
  case (Cons d ds)
  show ?case
  proof (cases "r \<le> d")
    case True
    from elapse_due [OF Cons.prems(1) True]
    have "snackbar (elapse d s) = None" "timer (elapse d s) = None" by simp_all
    then show ?thesis by (simp add: fold_elapse_idle)
  next
    case False
    then have d: "d < r" by simp
    from elapse_running [OF Cons.prems(1) d]
    have e: "timer (elapse d s) = Some (r - d)" by simp
    from d Cons.prems(3) have "0 < r - d" "r - d \<le> sum_list ds" by simp_all
    from Cons.IH [OF e this] show ?thesis by simp
  qed
qed

lemma convertFile_repeat:
  assumes "convertFile file s = Inr s'" and "snackbar s' = snackbar s"
  shows "timer s' = timer s"
  using assms
  by (auto simp: convertFile_def setSnackbar_def setOutputUrl_def
      split: option.splits if_splits)

subsection \<open>The selection stays inside the list\<close>

lemma convertFile_activeIndex:
  "convertFile file s = Inr s' \<Longrightarrow> activeIndex s' = activeIndex s"
  by (auto simp: convertFile_def setSnackbar_def setOutputUrl_def
      split: option.splits if_splits)

lemma convertFile_defined:
  "activeIndex s < length converters \<Longrightarrow> \<exists>s'. convertFile file s = Inr s'"
  by (simp add: convertFile_def activeConverter_def)

lemma img_onload_activeIndex: "activeIndex (img_onload c img ctx s) = activeIndex s"
  by (simp add: img_onload_def setOutputUrl_def Let_def)

lemma finish_activeIndex: "activeIndex (finish k out s) = activeIndex s"
  by (cases out) (simp_all add: finish_def Let_def img_onload_activeIndex)

lemma elapse_activeIndex: "activeIndex (elapse d s) = activeIndex s"
  by (cases "timer s") (simp_all add: elapse_def setSnackbar_def)

lemma converterTabs_nth:
  "k < length converters \<Longrightarrow> converterTabs ! k = tabClick k"
  "converterTabs ! length converters = (\<lambda>s. s)"
  "length converterTabs = Suc (length converters)"
  by (simp_all add: converterTabs_def nth_append)

lemma clickTab_activeIndex:
  assumes "activeIndex s < length converters" and "k < length converterTabs"
  shows "activeIndex ((converterTabs ! k) s) < length converters"
proof (cases "k < length converters")
  case True
  then show ?thesis by (simp add: converterTabs_nth tabClick_cells)
next
  case False
  with assms(2) have "k = length converters" by (simp add: converterTabs_nth)
  with assms(1) show ?thesis by (simp add: converterTabs_nth)
qed

lemma step_preserves:
  assumes "activeIndex s < length converters"
  shows "\<exists>s'. step e s = Inr s' \<and> activeIndex s' < length converters"
proof (cases e)
  case (FileChange files)
  show ?thesis
  proof (cases files)
    case Nil
    with FileChange assms show ?thesis by (simp add: handleFileChange_def)
  next
    case (Cons f fs)
    from convertFile_defined [OF assms] obtain s' where "convertFile f s = Inr s'" ..
    with FileChange Cons assms convertFile_activeIndex [of f s s'] show ?thesis
      by (simp add: handleFileChange_def)
  qed
next
  case (Drop files)
  let ?s = "setIsDragging False s"
  have i: "activeIndex ?s < length converters"
    using assms by (simp add: setIsDragging_def)
  show ?thesis
  proof (cases files)
    case Nil
    with Drop i show ?thesis by (simp add: handleDrop_def)
  next
    case (Cons f fs)
    from convertFile_defined [OF i] obtain s' where "convertFile f ?s = Inr s'" ..
    with Drop Cons i convertFile_activeIndex [of f ?s s'] show ?thesis
      by (simp add: handleDrop_def)
  qed
next
  case (ClickTab k)
  with assms clickTab_activeIndex [OF assms] show ?thesis by simp
next
  case (Finish k out)
  with assms show ?thesis by (simp add: finish_activeIndex)
next
  case (Elapse d)
  with assms show ?thesis by (simp add: elapse_activeIndex)
qed (use assms in \<open>simp_all add: handleDragOver_def handleDragEnter_def handleDragLeave_def
      setIsDragging_def handleClear_cells\<close>)

lemma run_preserves:
  "activeIndex s < length converters \<Longrightarrow>
     \<exists>s'. run es s = Inr s' \<and> activeIndex s' < length converters"
proof (induction es arbitrary: s)
  case Nil
  then show ?case by simp
next
  case (Cons e es)
  from step_preserves [OF Cons.prems] obtain s1
    where s1: "step e s = Inr s1" "activeIndex s1 < length converters" by blast
  from Cons.IH [OF s1(2)] s1(1) show ?case by simp
qed

section \<open>The claims\<close>

subsection \<open>Rejections\<close>

text \<open>
  C1. Whichever preset of the list is active, a file whose declared type differs from
  the preset's \<open>inputMime\<close> is rejected: \<^verbatim>\<open>convertFile\<close> clears the result,
  shows the type-mismatch notice of that preset and starts no conversion.
\<close>

theorem type_mismatch_rejected:
  assumes "i < length converters" and "activeIndex s = i"
    and "type file \<noteq> inputMime (converters ! i)"
  shows "\<exists>s'. convertFile file s = Inr s'
           \<and> outputUrl s' = None
           \<and> snackbar s' = Some (typeMismatchNotice (converters ! i))
           \<and> pending s' = pending s"
  using assms
  by (simp add: convertFile_def activeConverter_def setSnackbar_def setOutputUrl_def)

text \<open>A PNG file while \<^verbatim>\<open>Word to JPEG\<close> is selected.\<close>

theorem type_mismatch_rejected_witness:
  "4 < length converters \<and> activeIndex (tabClick 4 initial) = 4
   \<and> type \<lparr>type = ''image/png''\<rparr> \<noteq> inputMime (converters ! 4)
   \<and> (\<exists>s'. convertFile \<lparr>type = ''image/png''\<rparr> (tabClick 4 initial) = Inr s'
           \<and> outputUrl s' = None
           \<and> snackbar s' = Some (typeMismatchNotice (converters ! 4))
           \<and> pending s' = pending (tabClick 4 initial))"
proof -
  have a: "4 < length converters" by (simp add: converters_def)
  have b: "activeIndex (tabClick 4 initial) = 4"
    by (simp add: tabClick_def setError_def setOutputUrl_def setActiveIndex_def)
  have c: "type \<lparr>type = ''image/png''\<rparr> \<noteq> inputMime (converters ! 4)"
    by (simp add: converters_def docx_def)
  from type_mismatch_rejected [OF a b c] a b c show ?thesis by blast
qed

text \<open>
  C2, as stated, fails: the type check comes first, so under \<^verbatim>\<open>Word to JPEG\<close> a
  PNG file gets the type-mismatch notice, not the notice about backend support.
\<close>

theorem document_presets_counterexample:
  "map_sum id snackbar (convertFile \<lparr>type = ''image/png''\<rparr> (tabClick 4 initial))
     \<noteq> Inr (Some unsupportedNotice)"
  by (simp add: convertFile_def activeConverter_def tabClick_def setError_def
      setOutputUrl_def setActiveIndex_def setSnackbar_def initial_def converters_def docx_def
      typeMismatchNotice_def unsupportedNotice_def)

text \<open>
  C2, amended. Under the two document presets \<^verbatim>\<open>convertFile\<close> never converts: for
  every file it clears the result and starts no read; the notice is the fixed one about
  backend support when the file's declared type is the preset's \<open>inputMime\<close>, and the
  type-mismatch notice otherwise.
\<close>

theorem document_presets_never_convert:
  assumes "activeConverter s = Some c"
    and "label c = ''Word to JPEG'' \<or> label c = ''JPEG to Word''"
  shows "\<exists>s'. convertFile file s = Inr s'
           \<and> outputUrl s' = None
           \<and> pending s' = pending s
           \<and> snackbar s' = Some (if type file = inputMime c then unsupportedNotice
                                  else typeMismatchNotice c)"
  using assms
  by (auto simp: convertFile_def setSnackbar_def setOutputUrl_def)

text \<open>A JPEG file while \<^verbatim>\<open>JPEG to Word\<close> is selected.\<close>

theorem document_presets_never_convert_witness:
  "activeConverter (tabClick 5 initial) = Some (converters ! 5)
   \<and> (label (converters ! 5) = ''Word to JPEG'' \<or> label (converters ! 5) = ''JPEG to Word'')
   \<and> (\<exists>s'. convertFile \<lparr>type = ''image/jpeg''\<rparr> (tabClick 5 initial) = Inr s'
           \<and> outputUrl s' = None
           \<and> pending s' = pending (tabClick 5 initial)
           \<and> snackbar s' = Some unsupportedNotice)"
proof -
  have a: "activeConverter (tabClick 5 initial) = Some (converters ! 5)"
    by (simp add: activeConverter_def tabClick_def setError_def setOutputUrl_def
        setActiveIndex_def length_converters)
  have b: "label (converters ! 5) = ''Word to JPEG'' \<or> label (converters ! 5) = ''JPEG to Word''"
    by (simp add: converters_def)
  have c: "type \<lparr>type = ''image/jpeg''\<rparr> = inputMime (converters ! 5)"
    by (simp add: converters_def)
  from document_presets_never_convert [OF a b, of "\<lparr>type = ''image/jpeg''\<rparr>"] a b c
  show ?thesis by simp
qed

subsection \<open>The supported path\<close>

text \<open>
  C3, as stated, fails: a successful conversion does not clear a notice. After a rejected
  JPEG upload under \<^verbatim>\<open>PNG to JPG\<close>, a PNG file converts, the result is set, and
  the type-mismatch notice is still showing.
\<close>

theorem success_clears_notice_counterexample:
  "map_sum id outputUrl
     (run [Drop [\<lparr>type = ''image/jpeg''\<rparr>], Drop [\<lparr>type = ''image/png''\<rparr>],
           Finish 0 (Loaded (createCanvas 1 1) True)] initial) \<noteq> Inr None
   \<and> map_sum id snackbar
     (run [Drop [\<lparr>type = ''image/jpeg''\<rparr>], Drop [\<lparr>type = ''image/png''\<rparr>],
           Finish 0 (Loaded (createCanvas 1 1) True)] initial)
       = Inr (Some (typeMismatchNotice (converters ! 1)))"
  by (simp add: handleDrop_def setIsDragging_def convertFile_def activeConverter_def
      initial_def converters_def setSnackbar_def setOutputUrl_def finish_def img_onload_def
      Let_def)

text \<open>
  C3, amended. On every successful conversion (the declared type is the one of the
  active preset, the preset is not a document one, the image decodes and the context is
  acquired) the result is set to the encoded output, which has the width and height of
  the image, and an existing notice is left as it is; this holds in whatever state the
  decoding ends. In particular a valid PNG, of positive width and height, under
  \<^verbatim>\<open>PNG to JPG\<close> yields a non-empty encoded JPEG, and no notice when none was
  showing.
\<close>

theorem success_sets_result:
  assumes "activeConverter s = Some c" and "type file = inputMime c"
    and "label c \<noteq> ''Word to JPEG''" and "label c \<noteq> ''JPEG to Word''"
  shows "\<exists>s1 s2 url. convertFile file s = Inr s1
           \<and> finish (length (pending s)) (Loaded img True) s1 = s2
           \<and> url = toDataURL (outputMime c) (9 / 10)
                 (drawImage img 0 0
                    (if outputMime c = ''image/jpeg''
                     then fillRect white 0 0 (width img) (height img)
                            (createCanvas (width img) (height img))
                     else createCanvas (width img) (height img)))
           \<and> outputUrl s2 = Some url \<and> snackbar s2 = snackbar s
           \<and> (\<forall>t. img_onload c img True t = t\<lparr>outputUrl := Some url\<rparr>)
           \<and> width (encoded url) = width img \<and> height (encoded url) = height img
           \<and> (label c = ''PNG to JPG'' \<and> 0 < width img \<and> 0 < height img \<longrightarrow>
                 mimeType url = ''image/jpeg''
                 \<and> 0 < width (encoded url) \<and> 0 < height (encoded url)
                 \<and> (snackbar s = None \<longrightarrow> snackbar s2 = None))"
proof -
  let ?url = "toDataURL (outputMime c) (9 / 10)
         (drawImage img 0 0
            (if outputMime c = ''image/jpeg''
             then fillRect white 0 0 (width img) (height img) (createCanvas (width img) (height img))
             else createCanvas (width img) (height img)))"
  let ?s1 = "s\<lparr>pending := pending s @ [\<lparr>jobConverter = c, jobFile = file\<rparr>]\<rparr>"
  let ?s2 = "finish (length (pending s)) (Loaded img True) ?s1"
  have fin: "?s2 = s\<lparr>outputUrl := Some ?url\<rparr>"
    by (simp add: finish_last img_onload_ctx)
  have out: "outputUrl ?s2 = Some ?url" and sn: "snackbar ?s2 = snackbar s"
    by (simp_all add: fin)
  have onl: "\<forall>t. img_onload c img True t = t\<lparr>outputUrl := Some ?url\<rparr>"
    by (simp add: img_onload_ctx)
  have wh: "width (encoded ?url) = width img \<and> height (encoded ?url) = height img"
    by (simp add: toDataURL_def flatten_def drawImage_def fillRect_def createCanvas_def)
  have mt: "label c = ''PNG to JPG'' \<longrightarrow> mimeType ?url = ''image/jpeg''"
    using png_to_jpg_outputMime [OF assms(1)] by (simp add: toDataURL_def)
  have part: "label c = ''PNG to JPG'' \<and> 0 < width img \<and> 0 < height img \<longrightarrow>
                 mimeType ?url = ''image/jpeg''
                 \<and> 0 < width (encoded ?url) \<and> 0 < height (encoded ?url)
                 \<and> (snackbar s = None \<longrightarrow> snackbar ?s2 = None)"
    using mt wh sn by simp
  show ?thesis
  proof (intro exI conjI)
    show "convertFile file s = Inr ?s1" by (rule convertFile_accepts [OF assms])
    show "?s2 = ?s2" by (rule refl)
    show "?url = ?url" by (rule refl)
    show "outputUrl ?s2 = Some ?url" by (rule out)
    show "snackbar ?s2 = snackbar s" by (rule sn)
    show "\<forall>t. img_onload c img True t = t\<lparr>outputUrl := Some ?url\<rparr>" by (rule onl)
    show "width (encoded ?url) = width img" using wh by (rule conjunct1)
    show "height (encoded ?url) = height img" using wh by (rule conjunct2)
    show "label c = ''PNG to JPG'' \<and> 0 < width img \<and> 0 < height img \<longrightarrow>
                 mimeType ?url = ''image/jpeg''
                 \<and> 0 < width (encoded ?url) \<and> 0 < height (encoded ?url)
                 \<and> (snackbar s = None \<longrightarrow> snackbar ?s2 = None)" by (rule part)
  qed
qed

text \<open>A one-pixel PNG handed to the page as it starts.\<close>

theorem success_sets_result_witness:
  "activeConverter initial = Some (converters ! 1)
   \<and> type \<lparr>type = ''image/png''\<rparr> = inputMime (converters ! 1)
   \<and> label (converters ! 1) \<noteq> ''Word to JPEG''
   \<and> label (converters ! 1) \<noteq> ''JPEG to Word''
   \<and> label (converters ! 1) = ''PNG to JPG''
   \<and> 0 < width (createCanvas 1 1) \<and> 0 < height (createCanvas 1 1)
   \<and> snackbar initial = None
   \<and> (\<exists>s1 url. convertFile \<lparr>type = ''image/png''\<rparr> initial = Inr s1
         \<and> outputUrl (finish 0 (Loaded (createCanvas 1 1) True) s1) = Some url
         \<and> snackbar (finish 0 (Loaded (createCanvas 1 1) True) s1) = None
         \<and> mimeType url = ''image/jpeg''
         \<and> width (encoded url) = 1 \<and> height (encoded url) = 1)"
proof -
  from validPng have a: "activeConverter initial = Some (converters ! 1)"
    and b: "type \<lparr>type = ''image/png''\<rparr> = inputMime (converters ! 1)"
    and c: "label (converters ! 1) \<noteq> ''Word to JPEG''"
    and d: "label (converters ! 1) \<noteq> ''JPEG to Word''"
    and e: "label (converters ! 1) = ''PNG to JPG''"
    by blast+
  have p: "length (pending initial) = 0" and n: "snackbar initial = None"
    by (simp_all add: initial_def)
  have w: "width (createCanvas 1 1) = 1" and h: "height (createCanvas 1 1) = 1"
    by (simp_all add: createCanvas_def)
  from success_sets_result [OF a b c d, of "createCanvas 1 1"]
  obtain s1 s2 url where r: "convertFile \<lparr>type = ''image/png''\<rparr> initial = Inr s1"
    "finish (length (pending initial)) (Loaded (createCanvas 1 1) True) s1 = s2"
    "outputUrl s2 = Some url" "snackbar s2 = snackbar initial"
    "width (encoded url) = width (createCanvas 1 1)"
    "height (encoded url) = height (createCanvas 1 1)"
    "label (converters ! 1) = ''PNG to JPG'' \<and> 0 < width (createCanvas 1 1)
       \<and> 0 < height (createCanvas 1 1) \<longrightarrow> mimeType url = ''image/jpeg''"
    by blast
  from r have "convertFile \<lparr>type = ''image/png''\<rparr> initial = Inr s1
         \<and> outputUrl (finish 0 (Loaded (createCanvas 1 1) True) s1) = Some url
         \<and> snackbar (finish 0 (Loaded (createCanvas 1 1) True) s1) = None
         \<and> mimeType url = ''image/jpeg''
         \<and> width (encoded url) = 1 \<and> height (encoded url) = 1"
    using e p n w h by simp
  with a b c d e n w h show ?thesis by auto
qed

text \<open>
  C8. When \<^verbatim>\<open>getContext\<close> gives no context in an otherwise valid conversion,
  nothing happens: accepting the file changes neither result nor notice, and once the
  image has loaded the page is in the state it had before the file came; in whatever
  state the load ends, that state is kept.
\<close>

theorem no_context_no_op:
  assumes "activeConverter s = Some c" and "type file = inputMime c"
    and "label c \<noteq> ''Word to JPEG''" and "label c \<noteq> ''JPEG to Word''"
  shows "\<exists>s1. convertFile file s = Inr s1
           \<and> outputUrl s1 = outputUrl s \<and> snackbar s1 = snackbar s
           \<and> finish (length (pending s)) (Loaded img False) s1 = s
           \<and> (\<forall>t. img_onload c img False t = t)"
  by (simp add: convertFile_accepts [OF assms] finish_last img_onload_no_ctx)

theorem no_context_no_op_witness:
  "activeConverter initial = Some (converters ! 1)
   \<and> type \<lparr>type = ''image/png''\<rparr> = inputMime (converters ! 1)
   \<and> label (converters ! 1) \<noteq> ''Word to JPEG''
   \<and> label (converters ! 1) \<noteq> ''JPEG to Word''
   \<and> (\<exists>s1. convertFile \<lparr>type = ''image/png''\<rparr> initial = Inr s1
         \<and> finish 0 (Loaded (createCanvas 1 1) False) s1 = initial)"
proof -
  from validPng have a: "activeConverter initial = Some (converters ! 1)"
    and b: "type \<lparr>type = ''image/png''\<rparr> = inputMime (converters ! 1)"
    and c: "label (converters ! 1) \<noteq> ''Word to JPEG''"
    and d: "label (converters ! 1) \<noteq> ''JPEG to Word''"
    by blast+
  have p: "length (pending initial) = 0" by (simp add: initial_def)
  from no_context_no_op [OF a b c d, of "createCanvas 1 1"] p
  have "\<exists>s1. convertFile \<lparr>type = ''image/png''\<rparr> initial = Inr s1
         \<and> finish 0 (Loaded (createCanvas 1 1) False) s1 = initial"
    by auto
  with a b c d show ?thesis by blast
qed

text \<open>
  C9. On the supported path the canvas has the width and height of the decoded image,
  and the result is \<^verbatim>\<open>toDataURL\<close> of that canvas with the output type of the preset
  under which the file was handed in and the quality 0.9; for the four image presets
  that type is the type of the encoded output.
\<close>

theorem canvas_size_and_encoding:
  assumes "activeConverter s = Some c" and "type file = inputMime c"
    and "label c \<noteq> ''Word to JPEG''" and "label c \<noteq> ''JPEG to Word''"
  shows "\<exists>s1 canvas. convertFile file s = Inr s1
           \<and> finish (length (pending s)) (Loaded img True) s1
               = s\<lparr>outputUrl := Some (toDataURL (outputMime c) (9 / 10) canvas)\<rparr>
           \<and> (\<forall>t. outputUrl (img_onload c img True t)
                     = Some (toDataURL (outputMime c) (9 / 10) canvas))
           \<and> width canvas = width img \<and> height canvas = height img
           \<and> mimeType (toDataURL (outputMime c) (9 / 10) canvas) = outputMime c
           \<and> quality (toDataURL (outputMime c) (9 / 10) canvas) = 9 / 10
           \<and> width (encoded (toDataURL (outputMime c) (9 / 10) canvas)) = width img
           \<and> height (encoded (toDataURL (outputMime c) (9 / 10) canvas)) = height img"
proof -
  let ?canvas = "drawImage img 0 0
            (if outputMime c = ''image/jpeg''
             then fillRect white 0 0 (width img) (height img) (createCanvas (width img) (height img))
             else createCanvas (width img) (height img))"
  have wh: "width ?canvas = width img \<and> height ?canvas = height img"
    by (simp add: drawImage_def fillRect_def createCanvas_def)
  have fin: "finish (length (pending s)) (Loaded img True)
               (s\<lparr>pending := pending s @ [\<lparr>jobConverter = c, jobFile = file\<rparr>]\<rparr>)
             = s\<lparr>outputUrl := Some (toDataURL (outputMime c) (9 / 10) ?canvas)\<rparr>"
    by (simp add: finish_last img_onload_ctx)
  have onl: "\<forall>t. outputUrl (img_onload c img True t)
                     = Some (toDataURL (outputMime c) (9 / 10) ?canvas)"
    by (simp add: img_onload_ctx)
  from supported_outputMime [OF assms(1,3,4)]
  have enc: "mimeType (toDataURL (outputMime c) (9 / 10) ?canvas) = outputMime c
           \<and> quality (toDataURL (outputMime c) (9 / 10) ?canvas) = 9 / 10
           \<and> width (encoded (toDataURL (outputMime c) (9 / 10) ?canvas)) = width img
           \<and> height (encoded (toDataURL (outputMime c) (9 / 10) ?canvas)) = height img"
    using wh by (auto simp: toDataURL_def flatten_def)
  from convertFile_accepts [OF assms] fin onl wh enc show ?thesis by blast
qed

text \<open>A 4 by 3 JPEG under \<^verbatim>\<open>JPG to PNG\<close>.\<close>

theorem canvas_size_and_encoding_witness:
  "activeConverter (tabClick 0 initial) = Some (converters ! 0)
   \<and> type \<lparr>type = ''image/jpeg''\<rparr> = inputMime (converters ! 0)
   \<and> label (converters ! 0) \<noteq> ''Word to JPEG''
   \<and> label (converters ! 0) \<noteq> ''JPEG to Word''
   \<and> (\<exists>s1 canvas. convertFile \<lparr>type = ''image/jpeg''\<rparr> (tabClick 0 initial) = Inr s1
         \<and> finish 0 (Loaded (createCanvas 4 3) True) s1
             = (tabClick 0 initial)\<lparr>outputUrl := Some (toDataURL ''image/png'' (9 / 10) canvas)\<rparr>
         \<and> width canvas = 4 \<and> height canvas = 3
         \<and> mimeType (toDataURL ''image/png'' (9 / 10) canvas) = ''image/png''
         \<and> quality (toDataURL ''image/png'' (9 / 10) canvas) = 9 / 10)"
proof -
  have a: "activeConverter (tabClick 0 initial) = Some (converters ! 0)"
    by (simp add: activeConverter_def tabClick_def setError_def setOutputUrl_def
        setActiveIndex_def length_converters)
  have b: "type \<lparr>type = ''image/jpeg''\<rparr> = inputMime (converters ! 0)"
    and c: "label (converters ! 0) \<noteq> ''Word to JPEG''"
    and d: "label (converters ! 0) \<noteq> ''JPEG to Word''"
    and e: "outputMime (converters ! 0) = ''image/png''"
    by (simp_all add: converters_def)
  have p: "length (pending (tabClick 0 initial)) = 0"
    by (simp add: tabClick_def setError_def setOutputUrl_def setActiveIndex_def initial_def)
  have w: "width (createCanvas 4 3) = 4" and h: "height (createCanvas 4 3) = 3"
    by (simp_all add: createCanvas_def)
  from canvas_size_and_encoding [OF a b c d, of "createCanvas 4 3"]
  have "\<exists>s1 canvas. convertFile \<lparr>type = ''image/jpeg''\<rparr> (tabClick 0 initial) = Inr s1
         \<and> finish 0 (Loaded (createCanvas 4 3) True) s1
             = (tabClick 0 initial)\<lparr>outputUrl := Some (toDataURL ''image/png'' (9 / 10) canvas)\<rparr>
         \<and> width canvas = 4 \<and> height canvas = 3
         \<and> mimeType (toDataURL ''image/png'' (9 / 10) canvas) = ''image/png''
         \<and> quality (toDataURL ''image/png'' (9 / 10) canvas) = 9 / 10"
    unfolding e p w h by blast
  with a b c d show ?thesis by blast
qed

text \<open>
  C6. When the output type of the conversion is \<^verbatim>\<open>image/jpeg\<close>, the canvas is
  filled with opaque white over its full size before the image is drawn: every pixel of
  the canvas is white when the drawing starts, so where the image is fully transparent
  the canvas stays white, and white is what the JPEG encoder is given there.
\<close>

theorem white_background_for_jpeg:
  assumes "outputMime c = ''image/jpeg''"
  shows "\<exists>canvas1. canvas1 = fillRect white 0 0 (width img) (height img)
                                (createCanvas (width img) (height img))
           \<and> img_onload c img True s
               = setOutputUrl (Some (toDataURL ''image/jpeg'' (9 / 10) (drawImage img 0 0 canvas1))) s
           \<and> (\<forall>x y. x < width img \<and> y < height img \<longrightarrow> pixel canvas1 x y = white)
           \<and> (\<forall>x y. x < width img \<and> y < height img \<and> alpha (pixel img x y) = 0 \<longrightarrow>
                 pixel (drawImage img 0 0 canvas1) x y = white
                 \<and> pixel (encoded (toDataURL ''image/jpeg'' (9 / 10) (drawImage img 0 0 canvas1))) x y
                     = white)"
proof -
  let ?canvas1 = "fillRect white 0 0 (width img) (height img)
                    (createCanvas (width img) (height img))"
  have run: "img_onload c img True s
      = setOutputUrl (Some (toDataURL ''image/jpeg'' (9 / 10) (drawImage img 0 0 ?canvas1))) s"
    using assms by (simp add: img_onload_ctx setOutputUrl_def)
  have fill: "pixel ?canvas1 x y = white" if "x < width img" "y < height img" for x y
    using that by (simp add: fillRect_def createCanvas_def source_over_white)
  have draw: "pixel (drawImage img 0 0 ?canvas1) x y = white"
    if "x < width img" "y < height img" "alpha (pixel img x y) = 0" for x y
  proof -
    have "pixel (drawImage img 0 0 ?canvas1) x y
            = source_over (pixel img x y) (pixel ?canvas1 x y)"
      using that(1,2) by (simp add: drawImage_def fillRect_def createCanvas_def)
    with fill [OF that(1,2)] that(3) show ?thesis
      by (simp add: source_over_transparent)
  qed
  have enc: "pixel (encoded (toDataURL ''image/jpeg'' (9 / 10) (drawImage img 0 0 ?canvas1))) x y
               = white"
    if "x < width img" "y < height img" "alpha (pixel img x y) = 0" for x y
  proof -
    have "pixel (encoded (toDataURL ''image/jpeg'' (9 / 10) (drawImage img 0 0 ?canvas1))) x y
            = source_over (pixel (drawImage img 0 0 ?canvas1) x y) black"
      by (simp add: toDataURL_def flatten_def)
    with draw [OF that] show ?thesis by (simp add: source_over_white)
  qed
  from run fill draw enc show ?thesis by blast
qed

text \<open>A one-pixel, fully transparent image under \<^verbatim>\<open>PNG to JPG\<close>.\<close>

theorem white_background_for_jpeg_witness:
  "outputMime (converters ! 1) = ''image/jpeg''
   \<and> alpha (pixel (createCanvas 1 1) 0 0) = 0
   \<and> img_onload (converters ! 1) (createCanvas 1 1) True initial
       = setOutputUrl (Some (toDataURL ''image/jpeg'' (9 / 10)
           (drawImage (createCanvas 1 1) 0 0
              (fillRect white 0 0 1 1 (createCanvas 1 1))))) initial
   \<and> pixel (encoded (toDataURL ''image/jpeg'' (9 / 10)
        (drawImage (createCanvas 1 1) 0 0 (fillRect white 0 0 1 1 (createCanvas 1 1))))) 0 0
       = white"
proof -
  have a: "outputMime (converters ! 1) = ''image/jpeg''"
    by (simp add: converters_def)
  have t: "alpha (pixel (createCanvas 1 1) 0 0) = 0"
    and w: "width (createCanvas 1 1) = 1" and h: "height (createCanvas 1 1) = 1"
    by (simp_all add: createCanvas_def transparent_def)
  from white_background_for_jpeg [OF a, of "createCanvas 1 1" initial] a t
  show ?thesis unfolding w h by auto
qed

subsection \<open>Selection and reset\<close>

text \<open>
  C4, at the state where it fails. A JPEG upload under \<^verbatim>\<open>PNG to JPG\<close> is
  rejected and its notice shows; a click on the first tab then selects preset 0 and
  leaves no result, and the notice is still there: the handler resets the \<open>error\<close>
  cell, which never holds a message, and not the snackbar.
\<close>

theorem tab_switch_keeps_notice:
  "map_sum id snackbar (run [Drop [\<lparr>type = ''image/jpeg''\<rparr>], ClickTab 0] initial)
     = Inr (Some (typeMismatchNotice (converters ! 1)))
   \<and> map_sum id outputUrl (run [Drop [\<lparr>type = ''image/jpeg''\<rparr>], ClickTab 0] initial)
     = Inr None
   \<and> map_sum id activeIndex (run [Drop [\<lparr>type = ''image/jpeg''\<rparr>], ClickTab 0] initial)
     = Inr 0"
  by (simp add: handleDrop_def setIsDragging_def convertFile_def activeConverter_def
      initial_def converters_def setSnackbar_def setOutputUrl_def converterTabs_def
      tabClick_def setError_def setActiveIndex_def nth_append)

text \<open>
  C5, at the state where it fails. After the same rejected upload, the clear button
  leaves no result and keeps the selection, and the notice is still there, for the
  same reason.
\<close>

theorem clear_keeps_notice:
  "map_sum id snackbar (run [Drop [\<lparr>type = ''image/jpeg''\<rparr>], Clear] initial)
     = Inr (Some (typeMismatchNotice (converters ! 1)))
   \<and> map_sum id outputUrl (run [Drop [\<lparr>type = ''image/jpeg''\<rparr>], Clear] initial)
     = Inr None
   \<and> map_sum id activeIndex (run [Drop [\<lparr>type = ''image/jpeg''\<rparr>], Clear] initial)
     = Inr 1"
  by (simp add: handleDrop_def setIsDragging_def convertFile_def activeConverter_def
      initial_def converters_def setSnackbar_def setOutputUrl_def handleClear_def setError_def)

text \<open>
  C10. The list has six presets and the selection starts at 1. After any sequence of
  events the page has not failed, the selection is an index of the list and the active
  preset is defined. The tab bar has seven buttons, and a click on the last one,
  \<^verbatim>\<open>More...\<close>, changes nothing.
\<close>

theorem selection_always_valid:
  "length converters = 6 \<and> activeIndex initial = 1
   \<and> (\<exists>s c. run es initial = Inr s \<and> activeIndex s < length converters
              \<and> activeConverter s = Some c)
   \<and> length converterTabs = 7 \<and> step (ClickTab 6) s = Inr s"
proof -
  have i: "activeIndex initial < length converters"
    by (simp add: initial_def length_converters)
  from run_preserves [OF i] obtain s' where
    "run es initial = Inr s'" "activeIndex s' < length converters" by blast
  then have "\<exists>s c. run es initial = Inr s \<and> activeIndex s < length converters
              \<and> activeConverter s = Some c"
    by (simp add: activeConverter_def)
  moreover have "step (ClickTab 6) s = Inr s"
    using converterTabs_nth(2,3) by (simp add: length_converters)
  moreover have "length converterTabs = 7"
    by (simp add: converterTabs_nth length_converters)
  ultimately show ?thesis
    by (simp add: length_converters initial_def)
qed

theorem selection_always_valid_witness:
  "\<exists>s c. run [ClickTab 5, ClickTab 6, Drop [\<lparr>type = ''image/jpeg''\<rparr>], ClickTab 7, Clear] initial
            = Inr s
         \<and> activeIndex s < length converters \<and> activeConverter s = Some c"
  using selection_always_valid
    [of "[ClickTab 5, ClickTab 6, Drop [\<lparr>type = ''image/jpeg''\<rparr>], ClickTab 7, Clear]" initial]
  by blast

subsection \<open>The notice expires\<close>

text \<open>
  C7, as stated, fails. Time is a count of milliseconds. A JPEG upload under
  \<^verbatim>\<open>PNG to JPG\<close> is rejected; 2000 ms later the same upload is rejected again
  and \<^verbatim>\<open>convertFile\<close> sets the same notice, which is showing; with no further
  action it is gone 1000 ms after that, not 3000 ms: the snackbar did not change, so the
  effect did not run again and the first timeout went on.
\<close>

theorem repeated_notice_counterexample:
  "map_sum id snackbar
     (run [Drop [\<lparr>type = ''image/jpeg''\<rparr>], Elapse 2000, Drop [\<lparr>type = ''image/jpeg''\<rparr>]] initial)
     = Inr (Some (typeMismatchNotice (converters ! 1)))
   \<and> map_sum id snackbar
     (run [Drop [\<lparr>type = ''image/jpeg''\<rparr>], Elapse 2000, Drop [\<lparr>type = ''image/jpeg''\<rparr>],
           Elapse 1000] initial)
     = Inr None"
  by (simp add: handleDrop_def setIsDragging_def convertFile_def activeConverter_def
      initial_def converters_def setSnackbar_def setOutputUrl_def elapse_def
      useEffect_snackbar_def typeMismatchNotice_def)

text \<open>
  C7, amended. Whenever a rejection makes a notice appear (the snackbar changes), the
  notice is not empty, and with no other event it is still showing as long as less than
  3000 ms have passed and gone once 3000 ms have passed, in however many steps the time
  passes. A call of \<^verbatim>\<open>convertFile\<close> that leaves the snackbar as it is, as a
  rejection repeating the notice already showing does, leaves the running timeout as
  it is.
\<close>

theorem notice_expires_3000_after_appearing:
  assumes "convertFile file s = Inr s'"
  shows "(snackbar s' \<noteq> snackbar s \<longrightarrow>
            snackbar s' \<noteq> None
            \<and> (\<forall>ds. sum_list ds < 3000 \<longrightarrow>
                  map_sum id snackbar (run (map Elapse ds) s') = Inr (snackbar s'))
            \<and> (\<forall>ds. 3000 \<le> sum_list ds \<longrightarrow>
                  map_sum id snackbar (run (map Elapse ds) s') = Inr None))
         \<and> (snackbar s' = snackbar s \<longrightarrow> timer s' = timer s)"
proof (intro conjI impI)
  assume same: "snackbar s' = snackbar s"
  from convertFile_repeat [OF assms same] show "timer s' = timer s" .
next
  assume diff: "snackbar s' \<noteq> snackbar s"
  from convertFile_cases [OF assms] diff obtain m where m: "m \<noteq> []"
    and s': "s' = setSnackbar (Some m) (setOutputUrl None s)"
    by blast
  have new: "snackbar (setOutputUrl None s) \<noteq> Some m"
  proof
    assume "snackbar (setOutputUrl None s) = Some m"
    then have "snackbar s' = snackbar s"
      by (simp add: s' setSnackbar_def setOutputUrl_def)
    with diff show False by simp
  qed
  from setSnackbar_timer [OF m new] s'
  have sn: "snackbar s' = Some m" and tm: "timer s' = Some 3000"
    by simp_all
  from sn show "snackbar s' \<noteq> None" by simp
  show "\<forall>ds. sum_list ds < 3000 \<longrightarrow>
          map_sum id snackbar (run (map Elapse ds) s') = Inr (snackbar s')"
    using fold_elapse_running [OF tm] by (simp add: run_Elapse)
  show "\<forall>ds. 3000 \<le> sum_list ds \<longrightarrow>
          map_sum id snackbar (run (map Elapse ds) s') = Inr None"
    using fold_elapse_due [OF tm] by (simp add: run_Elapse)
qed

text \<open>The notice of a JPEG upload rejected as the page starts; the time passes in
  two and in three steps.\<close>

theorem notice_expires_3000_after_appearing_witness:
  "convertFile \<lparr>type = ''image/jpeg''\<rparr> initial
     = Inr (setSnackbar (Some (typeMismatchNotice (converters ! 1))) initial)
   \<and> snackbar (setSnackbar (Some (typeMismatchNotice (converters ! 1))) initial)
       \<noteq> snackbar initial
   \<and> sum_list [1000, 1999] < (3000 :: nat)
   \<and> map_sum id snackbar (run (map Elapse [1000, 1999])
        (setSnackbar (Some (typeMismatchNotice (converters ! 1))) initial))
       = Inr (Some (typeMismatchNotice (converters ! 1)))
   \<and> (3000 :: nat) \<le> sum_list [1000, 1999, 1]
   \<and> map_sum id snackbar (run (map Elapse [1000, 1999, 1])
        (setSnackbar (Some (typeMismatchNotice (converters ! 1))) initial))
       = Inr None"
proof -
  let ?s' = "setSnackbar (Some (typeMismatchNotice (converters ! 1))) initial"
  have a: "convertFile \<lparr>type = ''image/jpeg''\<rparr> initial = Inr ?s'"
    by (simp add: convertFile_def activeConverter_def initial_def converters_def
        setOutputUrl_def)
  have sn: "snackbar ?s' = Some (typeMismatchNotice (converters ! 1))"
    by (simp add: setSnackbar_def initial_def)
  have b: "snackbar ?s' \<noteq> snackbar initial"
    by (simp add: setSnackbar_def initial_def)
  have l: "sum_list [1000, 1999] < (3000 :: nat)" and g: "(3000 :: nat) \<le> sum_list [1000, 1999, 1]"
    by simp_all
  from notice_expires_3000_after_appearing [OF a] b
  have x: "\<forall>ds. sum_list ds < 3000 \<longrightarrow>
             map_sum id snackbar (run (map Elapse ds) ?s') = Inr (snackbar ?s')"
    and y: "\<forall>ds. 3000 \<le> sum_list ds \<longrightarrow>
             map_sum id snackbar (run (map Elapse ds) ?s') = Inr None"
    by blast+
  from x l have "map_sum id snackbar (run (map Elapse [1000, 1999]) ?s') = Inr (snackbar ?s')"
    by blast
  moreover from y g have "map_sum id snackbar (run (map Elapse [1000, 1999, 1]) ?s') = Inr None"
    by blast
  ultimately show ?thesis using a b sn l g by simp
qed

end
